theory Spec2Isabelle
  imports Complex_Main "HOL-Library.Log_Nat"
begin

section \<open>Data model of the classification pipeline (src/app/page.tsx)\<close>

text \<open>
  \<^verbatim>\<open>type WasteClassification = "biodegradable" | "non-biodegradable" | "recyclable"\<close>
\<close>

datatype WasteClassification = biodegradable | non_biodegradable | recyclable

text \<open>
  \<^verbatim>\<open>interface ClassificationResult { type; confidence; item; tips }\<close>.
  The TypeScript interface is erased at run time and \<open>processXimilarResult\<close> fills
  \<open>type\<close> and \<open>tips\<close> from an untyped property read; \<open>None\<close> is the JavaScript value
  \<open>undefined\<close> in such a field.
\<close>

record ClassificationResult =
  rtype :: "WasteClassification option"
  confidence :: int
  item :: string
  tips :: "string option"

text \<open>
  One element of \<open>outputs\<close> in the provider payload. A probability is a JavaScript
  number; \<open>prob\<close> holds its exact value as a rational (the program only ever holds
  doubles, see \<open>is_double\<close> below). Comparisons of numbers are exact; products are
  rounded, see \<open>double_mul\<close>. Strings are lists of 8-bit characters (Latin-1 code
  units).
\<close>

record prediction =
  label :: string
  prob :: rat

text \<open>
  The payload \<^verbatim>\<open>{records: [{outputs: [...]}]}\<close>. An absent (or \<open>null\<close>) property is
  \<open>None\<close>, as the optional chaining \<^verbatim>\<open>records?.[0]?.outputs\<close> foresees.
\<close>

record ximilar_record =
  outputs :: "prediction list option"

record payload =
  records :: "ximilar_record list option"

section \<open>Numbers of the JavaScript runtime\<close>

text \<open>
  A JavaScript number is an IEEE 754 binary64 value. The finite ones are rationals; an
  arithmetic result is the exact result rounded to the nearest double, ties to the even
  significand. Overflow to \<open>Infinity\<close> (magnitudes of \<open>2 ^ 1024\<close> and more) is outside this
  model: the products that the properties below rely on are bounded by 100.

  \<open>exponent x\<close>, for \<open>0 < x\<close>, is the \<open>e\<close> with \<open>2 ^ e \<le> x < 2 ^ (e + 1)\<close>.
\<close>

definition exponent :: "rat \<Rightarrow> int" where
  "exponent x = (if 1 \<le> x then bitlen \<lfloor>x\<rfloor> - 1 else - bitlen (\<lceil>1 / x\<rceil> - 1))"

text \<open>The nearest integer, a tie going to the even one.\<close>

definition round_half_even :: "rat \<Rightarrow> int" where
  "round_half_even t =
     (let f = \<lfloor>t\<rfloor>; d = t - of_int f in
      if d < 1 / 2 then f else if 1 / 2 < d then f + 1 else if even f then f else f + 1)"

text \<open>
  The spacing of the doubles around \<open>x > 0\<close>: 53 significant bits, and the fixed spacing
  \<open>2 ^ - 1074\<close> of the subnormal range below \<open>2 ^ - 1022\<close>.
\<close>

definition eff_exponent :: "rat \<Rightarrow> int" where
  "eff_exponent x = max (exponent x) (- 1022)"

definition quantum :: "rat \<Rightarrow> rat" where
  "quantum x = 2 powi (eff_exponent x - 52)"

definition round_double :: "rat \<Rightarrow> rat" where
  "round_double x =
     (if x = 0 then 0
      else if 0 < x then quantum x * of_int (round_half_even (x / quantum x))
      else - (quantum (- x) * of_int (round_half_even (- x / quantum (- x)))))"

text \<open>The product \<^verbatim>\<open>x * y\<close> of two numbers.\<close>

definition double_mul :: "rat \<Rightarrow> rat \<Rightarrow> rat" where
  "double_mul x y = round_double (x * y)"

definition is_double :: "rat \<Rightarrow> bool" where
  "is_double x \<longleftrightarrow> round_double x = x"

text \<open>
  The number a decimal literal denotes, in source text or in JSON: the nearest double
  (\<^verbatim>\<open>0.85\<close> is \<open>7656119366529843 / 2 ^ 53\<close>).
\<close>

definition number :: "rat \<Rightarrow> rat" where
  "number d = round_double d"

section \<open>String operations of the JavaScript runtime\<close>

text \<open>\<^verbatim>\<open>String.prototype.toLowerCase\<close> on Latin-1 code units.\<close>

definition toLowerCase_char :: "char \<Rightarrow> char" where
  "toLowerCase_char c =
     (let n = (of_char c :: nat) in
      if (65 \<le> n \<and> n \<le> 90) \<or> (192 \<le> n \<and> n \<le> 222 \<and> n \<noteq> 215)
      then char_of (n + 32) else c)"

definition toLowerCase :: "string \<Rightarrow> string" where
  "toLowerCase s = map toLowerCase_char s"

text \<open>The regular-expression class \<^verbatim>\<open>\w\<close>, that is \<^verbatim>\<open>[A-Za-z0-9_]\<close>.\<close>

definition is_word_char :: "char \<Rightarrow> bool" where
  "is_word_char c =
     (let n = (of_char c :: nat) in
      (48 \<le> n \<and> n \<le> 57) \<or> (65 \<le> n \<and> n \<le> 90) \<or> (97 \<le> n \<and> n \<le> 122) \<or> n = 95)"

text \<open>
  \<^verbatim>\<open>l.toUpperCase()\<close> for a one-character match of \<^verbatim>\<open>\w\<close>: only \<^verbatim>\<open>a-z\<close> change.
\<close>

definition toUpperCase_char :: "char \<Rightarrow> char" where
  "toUpperCase_char c =
     (let n = (of_char c :: nat) in
      if 97 \<le> n \<and> n \<le> 122 then char_of (n - 32) else c)"

text \<open>\<^verbatim>\<open>.replace(/_/g, " ")\<close>\<close>

definition replace_underscores :: "string \<Rightarrow> string" where
  "replace_underscores s = map (\<lambda>c. if c = CHR ''_'' then CHR '' '' else c) s"

text \<open>
  \<^verbatim>\<open>.replace(/\b\w/g, (l) => l.toUpperCase())\<close>: a left-to-right scan. The flag says
  whether the preceding character is a word character; \<^verbatim>\<open>\b\w\<close> matches a word
  character that is first in the string or follows a non-word character.
\<close>

fun capitalize_scan :: "bool \<Rightarrow> string \<Rightarrow> string" where
  "capitalize_scan prev [] = []"
| "capitalize_scan prev (c # cs) =
     (if is_word_char c \<and> \<not> prev then toUpperCase_char c else c)
       # capitalize_scan (is_word_char c) cs"

definition capitalize_words :: "string \<Rightarrow> string" where
  "capitalize_words s = capitalize_scan False s"

section \<open>ResultMapper: \<open>processXimilarResult\<close>\<close>

text \<open>
  The value of a property read \<^verbatim>\<open>wasteMapping[category]\<close>: an entry of the table, a
  member inherited from \<^verbatim>\<open>Object.prototype\<close> (the table is a plain object literal), or
  \<open>undefined\<close>.
\<close>

datatype mapping_value = Entry WasteClassification string | Inherited | Undefined

definition wasteMapping_entries :: "(string \<times> WasteClassification \<times> string) list" where
  "wasteMapping_entries =
   [(''plastic_bottle'', recyclable,
       ''Clean and place in recycling bin. Check local recycling guidelines for proper disposal.''),
    (''plastic_bag'', recyclable,
       ''Take to grocery store plastic bag recycling bins. Don't put in curbside recycling.''),
    (''paper'', recyclable,
       ''Remove any plastic coating and place in paper recycling bin.''),
    (''cardboard'', recyclable,
       ''Flatten and place in cardboard recycling. Remove any tape or staples.''),
    (''glass_bottle'', recyclable,
       ''Clean thoroughly and place in glass recycling container.''),
    (''aluminum_can'', recyclable,
       ''Clean and place in metal recycling bin. Aluminum cans are highly recyclable!''),
    (''food_waste'', biodegradable,
       ''Perfect for composting! Food waste makes excellent fertilizer.''),
    (''fruit_peel'', biodegradable,
       ''Compost this organic material to create nutrient-rich soil for plants!''),
    (''vegetable_scraps'', biodegradable,
       ''Great for composting! These scraps will decompose naturally.''),
    (''styrofoam'', non_biodegradable,
       ''This goes to general waste. Consider using reusable containers in the future!''),
    (''electronics'', non_biodegradable,
       ''Take to an e-waste recycling center. Never put electronics in regular trash!''),
    (''battery'', non_biodegradable,
       ''Take to battery recycling center. Batteries contain harmful chemicals.''),
    (''general_waste'', non_biodegradable,
       ''This item should go in your general waste bin.'')]"

text \<open>The property names every plain object inherits from \<^verbatim>\<open>Object.prototype\<close>.\<close>

definition object_prototype_keys :: "string list" where
  "object_prototype_keys =
   [''constructor'', ''__proto__'', ''hasOwnProperty'', ''isPrototypeOf'',
    ''propertyIsEnumerable'', ''toLocaleString'', ''toString'', ''valueOf'',
    ''__defineGetter__'', ''__defineSetter__'', ''__lookupGetter__'', ''__lookupSetter__'']"

definition wasteMapping :: "string \<Rightarrow> mapping_value" where
  "wasteMapping key =
     (case map_of wasteMapping_entries key of
        Some (t, tip) \<Rightarrow> Entry t tip
      | None \<Rightarrow> if key \<in> set object_prototype_keys then Inherited else Undefined)"

text \<open>
  \<^verbatim>\<open>wasteMapping[category] || wasteMapping["general_waste"]\<close>: entries and inherited
  members are objects or functions, hence truthy; only \<open>undefined\<close> takes the right operand.
\<close>

definition lookup_mapping :: "string \<Rightarrow> mapping_value" where
  "lookup_mapping category =
     (case wasteMapping category of
        Undefined \<Rightarrow> wasteMapping ''general_waste''
      | v \<Rightarrow> v)"

text \<open>\<^verbatim>\<open>mapping.type\<close> and \<^verbatim>\<open>mapping.tips\<close>; an inherited member has neither property.\<close>

fun mapping_type :: "mapping_value \<Rightarrow> WasteClassification option" where
  "mapping_type (Entry t tip) = Some t"
| "mapping_type Inherited = None"
| "mapping_type Undefined = None"

fun mapping_tips :: "mapping_value \<Rightarrow> string option" where
  "mapping_tips (Entry t tip) = Some tip"
| "mapping_tips Inherited = None"
| "mapping_tips Undefined = None"

text \<open>\<^verbatim>\<open>ximilarResult.records?.[0]?.outputs || []\<close>\<close>

definition predictions_of :: "payload \<Rightarrow> prediction list" where
  "predictions_of ximilarResult =
     (case records ximilarResult of
        None \<Rightarrow> []
      | Some [] \<Rightarrow> []
      | Some (r # rs) \<Rightarrow> (case outputs r of None \<Rightarrow> [] | Some ps \<Rightarrow> ps))"

text \<open>
  The reducer \<^verbatim>\<open>(max, current) => current.prob > (max?.prob || 0) ? current : max\<close>.
  \<^verbatim>\<open>max?.prob || 0\<close> is \<open>0\<close> for the initial \<open>null\<close> and for a falsy (zero) probability.
\<close>

definition prob_or_zero :: "prediction option \<Rightarrow> rat" where
  "prob_or_zero m = (case m of None \<Rightarrow> 0 | Some p \<Rightarrow> if prob p = 0 then 0 else prob p)"

definition reducer :: "prediction option \<Rightarrow> prediction \<Rightarrow> prediction option" where
  "reducer m current = (if prob current > prob_or_zero m then Some current else m)"

text \<open>\<^verbatim>\<open>predictions.reduce(reducer, null)\<close>\<close>

definition topPrediction :: "prediction list \<Rightarrow> prediction option" where
  "topPrediction predictions = foldl reducer None predictions"

text \<open>
  \<^verbatim>\<open>Math.round\<close>: the integer nearest to its argument, halves towards \<open>+\<infinity>\<close>. It is
  exact: no rounding error of its own.
\<close>

definition Math_round :: "rat \<Rightarrow> int" where
  "Math_round x = \<lfloor>x + 1 / 2\<rfloor>"

definition unknown_item :: ClassificationResult where
  "unknown_item =
     \<lparr>rtype = Some non_biodegradable, confidence = 50, item = ''Unknown item'',
      tips = Some ''Unable to classify this item. Please dispose of it responsibly.''\<rparr>"

text \<open>The object returned for a winning prediction.\<close>

definition result_of :: "prediction \<Rightarrow> ClassificationResult" where
  "result_of tp =
     (let category = toLowerCase (label tp);
          mapping = lookup_mapping category
      in \<lparr>rtype = mapping_type mapping,
          confidence = Math_round (double_mul (prob tp) 100),
          item = capitalize_words (replace_underscores (label tp)),
          tips = mapping_tips mapping\<rparr>)"

definition processXimilarResult :: "payload \<Rightarrow> ClassificationResult" where
  "processXimilarResult ximilarResult =
     (case topPrediction (predictions_of ximilarResult) of
        Some tp \<Rightarrow> result_of tp
      | None \<Rightarrow> unknown_item)"

section \<open>ClassificationClient: \<open>analyzeWaste\<close>\<close>

text \<open>
  What a \<^verbatim>\<open>fetch\<close> resolves to: the \<open>ok\<close> flag and the outcome of \<^verbatim>\<open>response.json()\<close>,
  \<open>None\<close> when the body is rejected (it is not JSON, or it is not a payload object, so
  that reading it throws).
\<close>

record http_response =
  ok :: bool
  json :: "payload option"

text \<open>
  The world around one capture attempt: whether \<^verbatim>\<open>fetch(imageData)\<close> and \<^verbatim>\<open>blob()\<close>
  succeed, what the call to \<^verbatim>\<open>/api/classify-waste\<close> resolves to for a given
  \<^verbatim>\<open>_base64\<close> field (\<open>None\<close> is a rejected promise, a transport exception), the value of
  \<^verbatim>\<open>Math.random()\<close> (a double, at least 0 and less than 1), and the encoder \<^verbatim>\<open>canvas.toDataURL("image/jpeg", 0.8)\<close> as a
  function of the canvas size.
\<close>

record env =
  dataUrlFetch :: bool
  apiResponse :: "string option \<Rightarrow> http_response option"
  random :: rat
  toDataURL :: "nat \<Rightarrow> nat \<Rightarrow> string"

record video =
  videoWidth :: nat
  videoHeight :: nat
  srcObject :: "nat option"

record canvas =
  context2d :: bool
  cwidth :: nat
  cheight :: nat

text \<open>
  The component state: the five \<^verbatim>\<open>useState\<close> cells, the three refs (\<open>None\<close> is a
  \<open>null\<close> ref; a media stream is named by a number), and the effects on the outside:
  the streams whose tracks were stopped, the alerts shown, and the number of calls made
  to the classification endpoint.
\<close>

record app_state =
  isCapturing :: bool
  isInitializingCamera :: bool
  capturedImage :: "string option"
  classification :: "ClassificationResult option"
  isAnalyzing :: bool
  videoRef :: "video option"
  canvasRef :: "canvas option"
  streamRef :: "nat option"
  stoppedStreams :: "nat list"
  alerts :: "string list"
  apiCalls :: nat

definition alert :: "string \<Rightarrow> app_state \<Rightarrow> app_state" where
  "alert msg s = s\<lparr>alerts := alerts s @ [msg]\<rparr>"

definition mockResults :: "ClassificationResult list" where
  "mockResults =
   [\<lparr>rtype = Some biodegradable, confidence = 92, item = ''Food waste'',
     tips = Some ''Compost this organic material to create nutrient-rich soil for plants!''\<rparr>,
    \<lparr>rtype = Some recyclable, confidence = 88, item = ''Plastic bottle'',
     tips = Some ''Clean and place in recycling bin. Check local recycling guidelines for proper disposal.''\<rparr>,
    \<lparr>rtype = Some non_biodegradable, confidence = 95, item = ''Styrofoam container'',
     tips = Some ''This goes to general waste. Consider using reusable containers in the future!''\<rparr>]"

text \<open>\<^verbatim>\<open>Math.floor(Math.random() * mockResults.length)\<close>\<close>

definition mock_index :: "rat \<Rightarrow> int" where
  "mock_index r = \<lfloor>double_mul r (of_nat (length mockResults))\<rfloor>"

text \<open>\<^verbatim>\<open>mockResults[i]\<close>: \<open>undefined\<close> outside the array.\<close>

definition randomResult :: "rat \<Rightarrow> ClassificationResult option" where
  "randomResult r =
     (let i = mock_index r in
      if 0 \<le> i \<and> i < int (length mockResults) then Some (mockResults ! nat i) else None)"

text \<open>The \<^verbatim>\<open>catch\<close> block of \<open>analyzeWaste\<close>.\<close>

definition mock_fallback :: "env \<Rightarrow> app_state \<Rightarrow> app_state" where
  "mock_fallback e s = s\<lparr>classification := randomResult (random e)\<rparr>"

text \<open>\<^verbatim>\<open>imageData.split(",")[1]\<close>: \<open>undefined\<close> when there is no comma.\<close>

definition base64_of :: "string \<Rightarrow> string option" where
  "base64_of imageData =
     (if CHR '','' \<in> set imageData
      then Some (takeWhile (\<lambda>c. c \<noteq> CHR '','') (tl (dropWhile (\<lambda>c. c \<noteq> CHR '','') imageData)))
      else None)"

text \<open>The \<^verbatim>\<open>try\<close> block of \<open>analyzeWaste\<close>; every \<open>throw\<close> lands in \<open>mock_fallback\<close>.\<close>

definition analyze_try :: "env \<Rightarrow> string \<Rightarrow> app_state \<Rightarrow> app_state" where
  "analyze_try e imageData s =
     (if \<not> dataUrlFetch e then mock_fallback e s
      else
        let s1 = s\<lparr>apiCalls := apiCalls s + 1\<rparr> in
        case apiResponse e (base64_of imageData) of
          None \<Rightarrow> mock_fallback e s1
        | Some ximilarResponse \<Rightarrow>
            if \<not> ok ximilarResponse then mock_fallback e s1
            else (case json ximilarResponse of
                    None \<Rightarrow> mock_fallback e s1
                  | Some result \<Rightarrow> s1\<lparr>classification := Some (processXimilarResult result)\<rparr>))"

definition analyzeWaste :: "env \<Rightarrow> string \<Rightarrow> app_state \<Rightarrow> app_state" where
  "analyzeWaste e imageData s =
     (analyze_try e imageData (s\<lparr>isAnalyzing := True\<rparr>))\<lparr>isAnalyzing := False\<rparr>"

section \<open>Camera handling, capture and reset\<close>

definition stopCamera :: "app_state \<Rightarrow> app_state" where
  "stopCamera s =
     (let s1 = (case streamRef s of
                  Some st \<Rightarrow> s\<lparr>stoppedStreams := stoppedStreams s @ [st], streamRef := None\<rparr>
                | None \<Rightarrow> s)
      in s1\<lparr>isCapturing := False, isInitializingCamera := False\<rparr>)"

text \<open>
  \<open>captureImage\<close>, run to the end of the \<open>analyzeWaste\<close> call it starts
  (the call is not awaited; its completion is the state the user sees next).
\<close>

definition captureImage :: "env \<Rightarrow> app_state \<Rightarrow> app_state" where
  "captureImage e s =
     (case (videoRef s, canvasRef s) of
        (Some v, Some c) \<Rightarrow>
          if videoWidth v = 0 \<or> videoHeight v = 0
          then alert ''Video is not ready yet. Please wait and try again.'' s
          else if context2d c then
            let c1 = c\<lparr>cwidth := videoWidth v, cheight := videoHeight v\<rparr>;
                imageDataUrl = toDataURL e (cwidth c1) (cheight c1);
                s1 = s\<lparr>canvasRef := Some c1, capturedImage := Some imageDataUrl\<rparr>
            in analyzeWaste e imageDataUrl (stopCamera s1)
          else alert ''Unable to get canvas context. Please try again.'' s
      | _ \<Rightarrow> alert ''Camera or canvas not ready. Please try again.'' s)"

definition resetApp :: "app_state \<Rightarrow> app_state" where
  "resetApp s =
     s\<lparr>capturedImage := None, classification := None, isAnalyzing := False,
       isCapturing := False, isInitializingCamera := False\<rparr>"

text \<open>
  The outcome of \<^verbatim>\<open>navigator.mediaDevices.getUserMedia\<close>: a stream, or a rejection
  with an \<open>Error\<close> of the given name, or with a value that is not an \<open>Error\<close>.
\<close>

datatype media_outcome = Stream nat | ErrorNamed string string | NotAnError

record camera_env =
  supported :: bool
  firstRequest :: media_outcome
  fallbackRequest :: media_outcome

text \<open>
  \<^verbatim>\<open>streamRef.current = stream; if (videoRef.current) { videoRef.current.srcObject = stream; ... }\<close>.
  The listeners registered inside the \<open>if\<close> run later and are not part of this step.
\<close>

definition attach_stream :: "nat \<Rightarrow> app_state \<Rightarrow> app_state" where
  "attach_stream st s =
     (let s1 = s\<lparr>streamRef := Some st\<rparr> in
      case videoRef s1 of
        Some v \<Rightarrow> s1\<lparr>videoRef := Some (v\<lparr>srcObject := Some st\<rparr>)\<rparr>
      | None \<Rightarrow> s1)"

text \<open>The \<open>catch\<close> block of \<open>startCamera\<close>.\<close>

definition camera_error :: "camera_env \<Rightarrow> media_outcome \<Rightarrow> app_state \<Rightarrow> app_state" where
  "camera_error ce err s =
     (case err of
        ErrorNamed name message \<Rightarrow>
          if name = ''NotAllowedError''
          then alert ''Camera access was denied. Please allow camera permissions and try again.'' s
          else if name = ''NotFoundError''
          then alert ''No camera found on this device.'' s
          else if name = ''NotSupportedError''
          then alert ''Camera is not supported in this browser.'' s
          else if name = ''OverconstrainedError''
          then
            (let s1 = alert ''Camera constraints could not be satisfied. Trying with basic settings...'' s in
             case fallbackRequest ce of
               Stream fallbackStream \<Rightarrow> attach_stream fallbackStream s1
             | _ \<Rightarrow> (alert ''Unable to access camera even with basic settings.'' s1)
                       \<lparr>isInitializingCamera := False\<rparr>)
          else (alert (''Unable to access camera: '' @ message @
                  ''. Please ensure you have granted camera permissions and are using HTTPS.'') s)
                 \<lparr>isInitializingCamera := False\<rparr>
      | _ \<Rightarrow> (alert ''Unable to access camera. Please ensure you have granted camera permissions.'' s)
               \<lparr>isInitializingCamera := False\<rparr>)"

text \<open>
  \<open>startCamera\<close> up to the end of its body. The final
  \<^verbatim>\<open>setIsInitializingCamera(false)\<close> runs on every path but the early return.
\<close>

definition startCamera :: "camera_env \<Rightarrow> app_state \<Rightarrow> app_state" where
  "startCamera ce s =
     (let s0 = s\<lparr>isInitializingCamera := True\<rparr> in
      if \<not> supported ce
      then (alert ''Camera is not supported in this browser. Please use a modern browser like Chrome, Firefox, or Safari.'' s0)
             \<lparr>isInitializingCamera := False\<rparr>
      else
        (case firstRequest ce of
           Stream st \<Rightarrow> attach_stream st s0
         | err \<Rightarrow> camera_error ce err s0)\<lparr>isInitializingCamera := False\<rparr>)"

text \<open>
  The listener \<open>handleLoadedMetadata\<close> (and the 3 s timeout, whose closure sees the initial
  \<open>isCapturing = false\<close>): both exist only when the video element was mounted at the time
  of \<open>startCamera\<close>.
\<close>

definition handleLoadedMetadata :: "app_state \<Rightarrow> app_state" where
  "handleLoadedMetadata s = s\<lparr>isCapturing := True, isInitializingCamera := False\<rparr>"

definition cameraTimeout :: "app_state \<Rightarrow> app_state" where
  "cameraTimeout s =
     (if streamRef s \<noteq> None then s\<lparr>isCapturing := True, isInitializingCamera := False\<rparr> else s)"

text \<open>
  The state at mount: every \<^verbatim>\<open>useState\<close> cell at its initial value, the canvas
  mounted (it is rendered unconditionally), the video element not mounted (it is rendered
  only while \<open>isCapturing\<close>).
\<close>

definition initial_state :: app_state where
  "initial_state =
     \<lparr>isCapturing = False, isInitializingCamera = False, capturedImage = None,
      classification = None, isAnalyzing = False, videoRef = None,
      canvasRef = Some \<lparr>context2d = True, cwidth = 300, cheight = 150\<rparr>,
      streamRef = None, stoppedStreams = [], alerts = [], apiCalls = 0\<rparr>"

text \<open>
  Which of the screens the JSX renders: the start screen is shown exactly when
  \<^verbatim>\<open>!isCapturing && !capturedImage && !isInitializingCamera\<close>; the result card when
  \<open>capturedImage\<close> is set, with the result when \<^verbatim>\<open>!isAnalyzing && classification\<close>.
\<close>

definition Idle :: "app_state \<Rightarrow> bool" where
  "Idle s \<longleftrightarrow> \<not> isCapturing s \<and> capturedImage s = None \<and> \<not> isInitializingCamera s"

definition Captured_Done :: "app_state \<Rightarrow> bool" where
  "Captured_Done s \<longleftrightarrow> capturedImage s \<noteq> None \<and> \<not> isAnalyzing s \<and> classification s \<noteq> None"

section \<open>ClassificationProxy: the \<open>POST\<close> handler (src/unnamed/part_001)\<close>

text \<open>
  The request as the handler reads it: \<open>Unparseable\<close> when \<^verbatim>\<open>request.formData()\<close>,
  \<^verbatim>\<open>JSON.parse(records)\<close> or \<^verbatim>\<open>parsedRecords[0]._base64\<close> throws; otherwise the value
  of the \<^verbatim>\<open>_base64\<close> property (\<open>None\<close> when the property is absent).
\<close>

datatype post_request = Unparseable | Records "string option"

definition synthetic :: "string \<Rightarrow> rat \<Rightarrow> http_response" where
  "synthetic l p =
     \<lparr>ok = True, json = Some \<lparr>records = Some [\<lparr>outputs = Some [\<lparr>label = l, prob = p\<rparr>]\<rparr>]\<rparr>\<rparr>"

text \<open>
  \<open>provider\<close> is the outcome of the call to the Ximilar endpoint for a given image:
  \<open>None\<close> is a rejected \<^verbatim>\<open>fetch\<close>. \<^verbatim>\<open>NextResponse.json(x)\<close> is a response with a
  success status and body \<open>x\<close>.
\<close>

definition POST :: "(string option \<Rightarrow> http_response option) \<Rightarrow> post_request \<Rightarrow> http_response" where
  "POST provider request =
     (case request of
        Unparseable \<Rightarrow> synthetic ''general_waste'' (number (75 / 100))
      | Records base64Image \<Rightarrow>
          (case provider base64Image of
             None \<Rightarrow> synthetic ''general_waste'' (number (75 / 100))
           | Some ximilarResponse \<Rightarrow>
               if \<not> ok ximilarResponse then synthetic ''plastic_bottle'' (number (85 / 100))
               else (case json ximilarResponse of
                       None \<Rightarrow> synthetic ''general_waste'' (number (75 / 100))
                     | Some result \<Rightarrow> \<lparr>ok = True, json = Some result\<rparr>)))"

text \<open>
  The client talking to the proxy: the form field \<^verbatim>\<open>records\<close> carries
  \<^verbatim>\<open>[{_base64: ...}]\<close>, which the handler parses back.
\<close>

definition via_proxy :: "(string option \<Rightarrow> http_response option) \<Rightarrow> string option \<Rightarrow> http_response option" where
  "via_proxy provider b = Some (POST provider (Records b))"

section \<open>Notions used to state the properties\<close>

text \<open>
  Index \<open>i\<close> holds the first-encountered prediction of maximum probability: no
  prediction of the list has a greater probability, and every earlier one has a strictly
  smaller one.
\<close>

definition first_max_at :: "prediction list \<Rightarrow> nat \<Rightarrow> bool" where
  "first_max_at ps i \<longleftrightarrow>
     i < length ps \<and> (\<forall>q \<in> set ps. prob q \<le> prob (ps ! i)) \<and>
     (\<forall>q \<in> set (take i ps). prob q < prob (ps ! i))"

text \<open>
  A complete, valid result: a category of the closed enumeration, a tip, and a confidence
  between 0 and 100.
\<close>

definition complete_result :: "ClassificationResult \<Rightarrow> bool" where
  "complete_result r \<longleftrightarrow>
     rtype r \<noteq> None \<and> tips r \<noteq> None \<and> 0 \<le> confidence r \<and> confidence r \<le> 100"

text \<open>
  The display label in the words of the specification: underscores become spaces, the
  label is cut into words at the spaces, the first letter of each word is put in upper
  case, and the words are joined by spaces again.
\<close>

fun capitalize_word :: "string \<Rightarrow> string" where
  "capitalize_word [] = []"
| "capitalize_word (c # cs) = toUpperCase_char c # cs"

fun split_on :: "char \<Rightarrow> string \<Rightarrow> string list" where
  "split_on d [] = [] # []"
| "split_on d (c # cs) =
     (if c = d then [] # split_on d cs
      else (case split_on d cs of [] \<Rightarrow> [c] # [] | w # ws \<Rightarrow> (c # w) # ws))"

fun join_with :: "char \<Rightarrow> string list \<Rightarrow> string" where
  "join_with d [] = []"
| "join_with d [w] = w"
| "join_with d (w # v # ws) = w @ d # join_with d (v # ws)"

definition title_case :: "string \<Rightarrow> string" where
  "title_case s = join_with CHR '' '' (map capitalize_word (split_on CHR '' '' s))"

definition item_label_spec :: "string \<Rightarrow> string" where
  "item_label_spec l = title_case (map (\<lambda>c. if c = CHR ''_'' then CHR '' '' else c) l)"

text \<open>
  The labels of the provider vocabulary, a little widened: ASCII letters, digits,
  underscores and spaces only.
\<close>

definition plain_label :: "string \<Rightarrow> bool" where
  "plain_label l \<longleftrightarrow> (\<forall>c \<in> set l. is_word_char c \<or> c = CHR '' '')"


section \<open>The maximum-probability fold\<close>

lemma topPrediction_snoc: "topPrediction (ps @ [x]) = reducer (topPrediction ps) x"
  by (simp add: topPrediction_def)

lemma topPrediction_none: "(\<forall>p \<in> set ps. prob p \<le> 0) \<Longrightarrow> topPrediction ps = None"
proof (induction ps rule: rev_induct)
  case Nil
  show ?case by (simp add: topPrediction_def)
next
  case (snoc x xs)
  then have "topPrediction xs = None" and "prob x \<le> 0" by simp_all
  then show ?case by (simp add: topPrediction_snoc reducer_def prob_or_zero_def)
qed

text \<open>
  The fold either keeps its initial \<open>null\<close>, when no probability is positive, or holds
  the first prediction of maximum probability, which is then positive.
\<close>

lemma topPrediction_cases:
  "(topPrediction ps = None \<and> (\<forall>p \<in> set ps. prob p \<le> 0)) \<or>
   (\<exists>i. first_max_at ps i \<and> topPrediction ps = Some (ps ! i) \<and> 0 < prob (ps ! i))"
proof (induction ps rule: rev_induct)
  case Nil
  show ?case by (simp add: topPrediction_def)
next
  case (snoc x xs)
  from snoc.IH show ?case
  proof (elim disjE conjE exE)
    assume none: "topPrediction xs = None" and le: "\<forall>p \<in> set xs. prob p \<le> 0"
    show ?thesis
    proof (cases "0 < prob x")
      case True
      have "first_max_at (xs @ [x]) (length xs)"
        unfolding first_max_at_def using le True
        by (auto simp: nth_append intro: le_less_trans)
      moreover have "topPrediction (xs @ [x]) = Some x"
        using none True by (simp add: topPrediction_snoc reducer_def prob_or_zero_def)
      ultimately show ?thesis using True by (intro disjI2 exI [of _ "length xs"]) simp
    next
      case False
      then show ?thesis using none le
        by (simp add: topPrediction_snoc reducer_def prob_or_zero_def)
    qed
  next
    fix i
    assume fm: "first_max_at xs i" and top: "topPrediction xs = Some (xs ! i)"
      and pos: "0 < prob (xs ! i)"
    from fm have i: "i < length xs" by (simp add: first_max_at_def)
    show ?thesis
    proof (cases "prob (xs ! i) < prob x")
      case True
      have "first_max_at (xs @ [x]) (length xs)"
        unfolding first_max_at_def using fm True
        by (auto simp: first_max_at_def nth_append intro: le_less_trans less_imp_le)
      moreover have "topPrediction (xs @ [x]) = Some x"
        using top True pos by (simp add: topPrediction_snoc reducer_def prob_or_zero_def)
      moreover have "0 < prob x" using pos True by simp
      ultimately show ?thesis by (intro disjI2 exI [of _ "length xs"]) simp
    next
      case False
      have "first_max_at (xs @ [x]) i"
        unfolding first_max_at_def using fm False i
        by (auto simp: first_max_at_def nth_append)
      moreover have "topPrediction (xs @ [x]) = Some (xs ! i)"
        using top False pos by (simp add: topPrediction_snoc reducer_def prob_or_zero_def)
      ultimately show ?thesis using pos i by (intro disjI2 exI [of _ i]) (simp add: nth_append)
    qed
  qed
qed

text \<open>
  C1, for payloads in which some prediction has a probability greater than 0:
  \<open>processXimilarResult\<close> selects the first-encountered prediction of maximum
  probability and builds its result from it.
\<close>

theorem C1_selects_first_maximum:
  assumes "\<exists>p \<in> set (predictions_of x). 0 < prob p"
  shows "\<exists>i. first_max_at (predictions_of x) i \<and>
             topPrediction (predictions_of x) = Some (predictions_of x ! i) \<and>
             processXimilarResult x = result_of (predictions_of x ! i)"
proof -
  from assms have "\<not> (\<forall>p \<in> set (predictions_of x). prob p \<le> 0)"
    by (auto simp: not_le)
  with topPrediction_cases [of "predictions_of x"]
  obtain i where "first_max_at (predictions_of x) i"
    and "topPrediction (predictions_of x) = Some (predictions_of x ! i)"
    by blast
  then show ?thesis by (auto simp: processXimilarResult_def)
qed

theorem C1_selects_first_maximum_witness:
  "(\<exists>p \<in> set (predictions_of
       \<lparr>records = Some [\<lparr>outputs = Some [\<lparr>label = ''battery'', prob = 6 / 10\<rparr>,
                                          \<lparr>label = ''aluminum_can'', prob = 6 / 10\<rparr>]\<rparr>]\<rparr>).
      0 < prob p) \<and>
   topPrediction [\<lparr>label = ''battery'', prob = 6 / 10\<rparr>, \<lparr>label = ''aluminum_can'', prob = 6 / 10\<rparr>]
     = Some \<lparr>label = ''battery'', prob = 6 / 10\<rparr>"
proof -
  define ps where "ps = [\<lparr>label = ''battery'', prob = 6 / 10\<rparr>,
                         \<lparr>label = ''aluminum_can'', prob = 6 / 10\<rparr>]"
  define x where "x = \<lparr>records = Some [\<lparr>outputs = Some ps\<rparr>]\<rparr>"
  have ps: "predictions_of x = ps"
    by (simp add: predictions_of_def x_def)
  have h: "\<exists>p \<in> set (predictions_of x). 0 < prob p"
    unfolding ps by (simp add: ps_def)
  from C1_selects_first_maximum [OF h] obtain i where
    fm: "first_max_at ps i" and top: "topPrediction ps = Some (ps ! i)"
    unfolding ps by blast
  from fm have "i = 0"
    by (cases i) (auto simp: ps_def first_max_at_def)
  with top have "topPrediction ps = Some (ps ! 0)"
    by simp
  with h show ?thesis
    unfolding x_def ps_def by simp
qed

text \<open>
  C1 as stated fails: a well-formed payload with one prediction, of probability 0. The
  prediction is the maximum of the list, and the fold selects nothing; the result is the
  fixed fallback, not the result of the prediction.
\<close>

theorem C1_counterexample_zero_probability:
  "first_max_at [\<lparr>label = ''paper'', prob = 0\<rparr>] 0 \<and>
   topPrediction [\<lparr>label = ''paper'', prob = 0\<rparr>] = None \<and>
   processXimilarResult \<lparr>records = Some [\<lparr>outputs = Some [\<lparr>label = ''paper'', prob = 0\<rparr>]\<rparr>]\<rparr>
     = unknown_item \<and>
   item unknown_item \<noteq> item (result_of \<lparr>label = ''paper'', prob = 0\<rparr>)"
  by code_simp

text \<open>
  C4. A payload whose first record's outputs list is absent or empty (the records list
  may itself be absent or empty) is mapped to the fixed result: non-biodegradable,
  confidence 50, "Unknown item", with the generic disposal tip.
\<close>

theorem C4_absent_or_empty_outputs:
  assumes "records x = None \<or> records x = Some [] \<or>
           (\<exists>r rs. records x = Some (r # rs) \<and> (outputs r = None \<or> outputs r = Some []))"
  shows "processXimilarResult x =
           \<lparr>rtype = Some non_biodegradable, confidence = 50, item = ''Unknown item'',
            tips = Some ''Unable to classify this item. Please dispose of it responsibly.''\<rparr>"
proof -
  from assms have "predictions_of x = []"
    by (auto simp: predictions_of_def)
  then show ?thesis
    by (simp add: processXimilarResult_def topPrediction_def unknown_item_def)
qed

theorem C4_absent_or_empty_outputs_witness:
  "(records \<lparr>records = Some [\<lparr>outputs = None\<rparr>]\<rparr> = None \<or>
    records \<lparr>records = Some [\<lparr>outputs = None\<rparr>]\<rparr> = Some [] \<or>
    (\<exists>r rs. records \<lparr>records = Some [\<lparr>outputs = None\<rparr>]\<rparr> = Some (r # rs) \<and>
             (outputs r = None \<or> outputs r = Some []))) \<and>
   processXimilarResult \<lparr>records = Some [\<lparr>outputs = None\<rparr>]\<rparr> =
     \<lparr>rtype = Some non_biodegradable, confidence = 50, item = ''Unknown item'',
      tips = Some ''Unable to classify this item. Please dispose of it responsibly.''\<rparr>"
proof -
  have h: "records \<lparr>records = Some [\<lparr>outputs = None\<rparr>]\<rparr> = None \<or>
    records \<lparr>records = Some [\<lparr>outputs = None\<rparr>]\<rparr> = Some [] \<or>
    (\<exists>r rs. records \<lparr>records = Some [\<lparr>outputs = None\<rparr>]\<rparr> = Some (r # rs) \<and>
             (outputs r = None \<or> outputs r = Some []))"
    by simp
  from h C4_absent_or_empty_outputs [OF h] show ?thesis by blast
qed

text \<open>
  C10. A non-empty outputs list in which every prediction has probability 0 is mapped to
  the fixed "Unknown item" result: the fold starts from \<open>null\<close> and replaces its
  accumulator only on a strictly greater probability, so it selects none of them.
\<close>

theorem C10_all_zero_probabilities:
  assumes "ps \<noteq> []" and "\<forall>p \<in> set ps. prob p = 0"
  shows "topPrediction ps = None \<and>
         processXimilarResult \<lparr>records = Some (\<lparr>outputs = Some ps\<rparr> # rs)\<rparr> =
           \<lparr>rtype = Some non_biodegradable, confidence = 50, item = ''Unknown item'',
            tips = Some ''Unable to classify this item. Please dispose of it responsibly.''\<rparr>"
proof -
  from assms(2) have "topPrediction ps = None"
    by (intro topPrediction_none) simp
  then show ?thesis
    by (simp add: processXimilarResult_def predictions_of_def unknown_item_def)
qed

theorem C10_all_zero_probabilities_witness:
  "prob \<lparr>label = ''paper'', prob = 0\<rparr> = 0 \<and> prob \<lparr>label = ''battery'', prob = 0\<rparr> = 0 \<and>
   processXimilarResult
     \<lparr>records = Some [\<lparr>outputs = Some [\<lparr>label = ''paper'', prob = 0\<rparr>,
                                        \<lparr>label = ''battery'', prob = 0\<rparr>]\<rparr>]\<rparr> =
     \<lparr>rtype = Some non_biodegradable, confidence = 50, item = ''Unknown item'',
      tips = Some ''Unable to classify this item. Please dispose of it responsibly.''\<rparr>"
proof -
  have h1: "[\<lparr>label = ''paper'', prob = 0\<rparr>, \<lparr>label = ''battery'', prob = 0\<rparr>] \<noteq> []"
    by simp
  have h2: "\<forall>p \<in> set [\<lparr>label = ''paper'', prob = 0\<rparr>, \<lparr>label = ''battery'', prob = 0\<rparr>]. prob p = 0"
    by simp
  from C10_all_zero_probabilities [OF h1 h2, of "[]"] show ?thesis by simp
qed

section \<open>Rounding to the nearest double\<close>

text \<open>
  The exponent is the binade of its argument; rounding is monotone, keeps a value inside
  its binade, and errs by at most half the spacing.
\<close>

lemma bitlen_pos: "0 < n \<Longrightarrow> 1 \<le> bitlen n"
  using bitlen_eq_zero_iff [of n] bitlen_nonneg [of n] by linarith

lemma exponent_bounds:
  assumes "0 < x"
  shows "2 powi exponent x \<le> x \<and> x < 2 powi (exponent x + 1)"
proof (cases "1 \<le> x")
  case True
  define n where "n = \<lfloor>x\<rfloor>"
  have "1 \<le> n" using True by (simp add: n_def le_floor_iff)
  then have pos: "0 < n" by simp
  from bitlen_bounds [OF pos]
  have b1: "2 ^ nat (bitlen n - 1) \<le> n" and b2: "n < 2 ^ nat (bitlen n)" by simp_all
  from bitlen_pos [OF pos] have k: "1 \<le> bitlen n" .
  have e: "exponent x = bitlen n - 1" using True by (simp add: exponent_def n_def)
  have "(2::rat) powi (bitlen n - 1) = of_int (2 ^ nat (bitlen n - 1))"
    using k by (simp add: power_int_nonneg_exp)
  also have "\<dots> \<le> of_int n" using b1 by (simp only: of_int_le_iff)
  also have "\<dots> \<le> x" by (simp add: n_def)
  finally have lo: "2 powi (bitlen n - 1) \<le> x" .
  have "x < of_int (n + 1)" unfolding n_def by simp linarith
  also have "\<dots> \<le> of_int (2 ^ nat (bitlen n))" using b2 by (simp only: of_int_le_iff)
  also have "\<dots> = (2::rat) powi (bitlen n)"
    using k by (simp add: power_int_nonneg_exp)
  finally have hi: "x < 2 powi (bitlen n)" .
  from lo hi show ?thesis by (simp add: e)
next
  case False
  define y where "y = 1 / x"
  define m where "m = \<lceil>y\<rceil> - 1"
  from False assms have y1: "1 < y" by (simp add: y_def field_simps)
  then have "1 < \<lceil>y\<rceil>" by (simp add: less_ceiling_iff)
  then have pos: "0 < m" by (simp add: m_def)
  from bitlen_bounds [OF pos]
  have b1: "2 ^ nat (bitlen m - 1) \<le> m" and b2: "m < 2 ^ nat (bitlen m)" by simp_all
  from bitlen_pos [OF pos] have k: "1 \<le> bitlen m" .
  have e: "exponent x = - bitlen m" using False by (simp add: exponent_def m_def y_def)
  have x: "x = 1 / y" using assms by (simp add: y_def)
  have ypos: "0 < y" using y1 by simp
  have "y \<le> of_int (m + 1)" by (simp add: m_def)
  also have "\<dots> \<le> of_int (2 ^ nat (bitlen m))" using b2 by (simp only: of_int_le_iff)
  also have "\<dots> = (2::rat) powi (bitlen m)" using k by (simp add: power_int_nonneg_exp)
  finally have "y \<le> 2 powi (bitlen m)" .
  then have "1 / (2 powi (bitlen m)) \<le> 1 / y"
    using ypos by (simp add: frac_le)
  then have lo: "2 powi (- bitlen m) \<le> x"
    by (simp add: x power_int_minus_divide)
  have "(2::rat) powi (bitlen m - 1) = of_int (2 ^ nat (bitlen m - 1))"
    using k by (simp add: power_int_nonneg_exp)
  also have "\<dots> \<le> of_int m" using b1 by (simp only: of_int_le_iff)
  also have "\<dots> < y" by (simp add: m_def) linarith
  finally have "2 powi (bitlen m - 1) < y" .
  then have "1 / y < 1 / (2 powi (bitlen m - 1))"
    by (simp add: frac_less2)
  then have hi: "x < 2 powi (- bitlen m + 1)"
    using power_int_minus_divide [of "2::rat" "bitlen m - 1"] by (simp add: x)
  from lo hi show ?thesis by (simp add: e)
qed

lemma power_int_2_less_imp:
  assumes "(2::rat) powi a < 2 powi b"
  shows "a < b"
proof (rule ccontr)
  assume "\<not> a < b"
  then have "b \<le> a" by simp
  then have "(2::rat) powi b \<le> 2 powi a" by (intro power_int_increasing) simp_all
  with assms show False by simp
qed

lemma exponent_unique:
  assumes "0 < x" and "2 powi e \<le> x" and "x < 2 powi (e + 1)"
  shows "exponent x = e"
proof -
  from exponent_bounds [OF assms(1)]
  have lo: "2 powi exponent x \<le> x" and hi: "x < 2 powi (exponent x + 1)" by simp_all
  from assms(2) hi have "(2::rat) powi e < 2 powi (exponent x + 1)" by simp
  then have "e < exponent x + 1" by (rule power_int_2_less_imp)
  moreover from lo assms(3) have "(2::rat) powi exponent x < 2 powi (e + 1)" by simp
  then have "exponent x < e + 1" by (rule power_int_2_less_imp)
  ultimately show ?thesis by simp
qed


lemma exponent_mono:
  assumes "0 < x" and "x \<le> y"
  shows "exponent x \<le> exponent y"
proof -
  from assms have "0 < y" by simp
  from exponent_bounds [OF assms(1)] exponent_bounds [OF this] assms(2)
  have "(2::rat) powi exponent x < 2 powi (exponent y + 1)" by simp
  then have "exponent x < exponent y + 1" by (rule power_int_2_less_imp)
  then show ?thesis by simp
qed

lemma round_half_even_near:
  "of_int (round_half_even t) - 1 / 2 \<le> t \<and> t \<le> of_int (round_half_even t) + 1 / 2"
  unfolding round_half_even_def Let_def by (simp; linarith)

lemma round_half_even_of_int [simp]: "round_half_even (of_int n) = n"
  by (simp add: round_half_even_def)

lemma round_half_even_mono:
  assumes "s \<le> t"
  shows "round_half_even s \<le> round_half_even t"
proof (cases "\<lfloor>s\<rfloor> = \<lfloor>t\<rfloor>")
  case True
  with assms show ?thesis
    by (auto simp: round_half_even_def Let_def)
next
  case False
  with assms have "\<lfloor>s\<rfloor> < \<lfloor>t\<rfloor>"
    using floor_mono [OF assms] by simp
  moreover have "round_half_even s \<le> \<lfloor>s\<rfloor> + 1"
    by (simp add: round_half_even_def Let_def)
  moreover have "\<lfloor>t\<rfloor> \<le> round_half_even t"
    by (simp add: round_half_even_def Let_def)
  ultimately show ?thesis by linarith
qed

lemma round_half_even_ge:
  "of_int n \<le> t \<Longrightarrow> n \<le> round_half_even t"
  using round_half_even_mono [of "of_int n" t] by simp

lemma round_half_even_le:
  "t \<le> of_int n \<Longrightarrow> round_half_even t \<le> n"
  using round_half_even_mono [of t "of_int n"] by simp

lemma quantum_pos [simp]: "0 < quantum x"
  by (simp add: quantum_def)

lemma quantum_nonneg [simp]: "0 \<le> quantum x"
  by (rule less_imp_le) simp

lemma quantum_nonzero [simp]: "quantum x \<noteq> 0"
  by (simp add: quantum_def)

lemma quantum_eff: "quantum x = 2 powi (eff_exponent x - 52)"
  by (fact quantum_def)

lemma quantum_53: "quantum x * of_int (2 ^ 53) = 2 powi (eff_exponent x + 1)"
proof -
  have "(2::rat) powi (eff_exponent x - 52 + 53) = 2 powi (eff_exponent x - 52) * 2 powi 53"
    by (rule power_int_add) simp
  moreover have "eff_exponent x - 52 + 53 = eff_exponent x + 1" by simp
  ultimately show ?thesis unfolding quantum_eff by simp
qed

lemma quantum_52: "quantum x * of_int (2 ^ 52) = 2 powi (eff_exponent x)"
proof -
  have "(2::rat) powi (eff_exponent x - 52 + 52) = 2 powi (eff_exponent x - 52) * 2 powi 52"
    by (rule power_int_add) simp
  then show ?thesis unfolding quantum_eff by simp
qed

lemma round_double_pos:
  "0 < x \<Longrightarrow> round_double x = quantum x * of_int (round_half_even (x / quantum x))"
  by (simp add: round_double_def)

lemma below_next_power:
  assumes "0 < x"
  shows "x < 2 powi (eff_exponent x + 1)"
proof -
  from exponent_bounds [OF assms] have "x < 2 powi (exponent x + 1)" by simp
  also have "\<dots> \<le> 2 powi (eff_exponent x + 1)"
    by (intro power_int_increasing) (simp_all add: eff_exponent_def)
  finally show ?thesis .
qed

lemma scaled_upper:
  assumes "0 < x"
  shows "x / quantum x < of_int (2 ^ 53)"
proof -
  from below_next_power [OF assms] have "x < quantum x * of_int (2 ^ 53)"
    unfolding quantum_53 .
  then have "x < of_int (2 ^ 53) * quantum x" by (simp only: mult.commute)
  then show ?thesis by (simp only: pos_divide_less_eq [OF quantum_pos])
qed

lemma scaled_lower:
  assumes "0 < x" and "- 1022 \<le> exponent x"
  shows "of_int (2 ^ 52) \<le> x / quantum x"
proof -
  from assms(2) have e: "eff_exponent x = exponent x" by (simp add: eff_exponent_def)
  from exponent_bounds [OF assms(1)] have "quantum x * of_int (2 ^ 52) \<le> x"
    unfolding quantum_52 e by simp
  then have "of_int (2 ^ 52) * quantum x \<le> x" by (simp only: mult.commute)
  then show ?thesis by (simp only: pos_le_divide_eq [OF quantum_pos])
qed

lemma round_double_upper:
  assumes "0 < x"
  shows "round_double x \<le> 2 powi (eff_exponent x + 1)"
proof -
  from scaled_upper [OF assms] have "x / quantum x \<le> of_int (2 ^ 53)" by (rule less_imp_le)
  then have "round_half_even (x / quantum x) \<le> 2 ^ 53" by (rule round_half_even_le)
  then have "(of_int (round_half_even (x / quantum x)) :: rat) \<le> of_int (2 ^ 53)"
    by (simp only: of_int_le_iff)
  then have "quantum x * of_int (round_half_even (x / quantum x)) \<le> quantum x * of_int (2 ^ 53)"
    by (rule mult_left_mono) simp
  then show ?thesis
    unfolding quantum_53 round_double_pos [OF assms] .
qed

lemma round_double_lower:
  assumes "0 < x" and "- 1022 \<le> exponent x"
  shows "2 powi (exponent x) \<le> round_double x"
proof -
  from assms(2) have e: "eff_exponent x = exponent x" by (simp add: eff_exponent_def)
  from scaled_lower [OF assms]
  have "2 ^ 52 \<le> round_half_even (x / quantum x)" by (rule round_half_even_ge)
  then have "(of_int (2 ^ 52) :: rat) \<le> of_int (round_half_even (x / quantum x))"
    by (simp only: of_int_le_iff)
  then have "quantum x * of_int (2 ^ 52) \<le> quantum x * of_int (round_half_even (x / quantum x))"
    by (rule mult_left_mono) simp
  then show ?thesis
    unfolding quantum_52 e round_double_pos [OF assms(1)] .
qed

lemma round_double_nonneg:
  assumes "0 \<le> x"
  shows "0 \<le> round_double x"
proof (cases "x = 0")
  case True
  then show ?thesis by (simp add: round_double_def)
next
  case False
  with assms have pos: "0 < x" by simp
  then have "of_int 0 \<le> x / quantum x" by simp
  then have "0 \<le> round_half_even (x / quantum x)" by (rule round_half_even_ge)
  then show ?thesis by (simp add: round_double_pos [OF pos])
qed

lemma round_double_mono:
  assumes "0 \<le> x" and "x \<le> y"
  shows "round_double x \<le> round_double y"
proof (cases "x = 0")
  case True
  with assms round_double_nonneg [of y] show ?thesis by (simp add: round_double_def)
next
  case False
  with assms have x: "0 < x" and y: "0 < y" by simp_all
  from exponent_mono [OF x assms(2)] have le: "eff_exponent x \<le> eff_exponent y"
    by (simp add: eff_exponent_def)
  show ?thesis
  proof (cases "eff_exponent x = eff_exponent y")
    case True
    then have q: "quantum y = quantum x" by (simp add: quantum_eff)
    from assms(2) have "x / quantum x \<le> y / quantum x"
      by (rule divide_right_mono) simp
    then have "round_half_even (x / quantum x) \<le> round_half_even (y / quantum x)"
      by (rule round_half_even_mono)
    then have "(of_int (round_half_even (x / quantum x)) :: rat)
        \<le> of_int (round_half_even (y / quantum x))"
      by (simp only: of_int_le_iff)
    then have "quantum x * of_int (round_half_even (x / quantum x))
        \<le> quantum x * of_int (round_half_even (y / quantum x))"
      by (rule mult_left_mono) simp
    then show ?thesis
      by (simp only: round_double_pos [OF x] round_double_pos [OF y] q)
  next
    case False
    with le have lt: "eff_exponent x < eff_exponent y" by simp
    then have normal: "- 1022 \<le> exponent y" and ey: "eff_exponent y = exponent y"
      by (auto simp: eff_exponent_def max_def split: if_splits)
    have "round_double x \<le> 2 powi (eff_exponent x + 1)"
      by (rule round_double_upper [OF x])
    also have "\<dots> \<le> 2 powi (exponent y)"
      using lt ey by (intro power_int_increasing) simp_all
    also have "\<dots> \<le> round_double y"
      by (rule round_double_lower [OF y normal])
    finally show ?thesis .
  qed
qed

lemma round_double_error:
  assumes "0 < x"
  shows "\<bar>round_double x - x\<bar> \<le> quantum x / 2"
proof -
  define t where "t = x / quantum x"
  have x: "x = quantum x * t" by (simp add: t_def)
  from round_half_even_near [of t]
  have "\<bar>of_int (round_half_even t) - t\<bar> \<le> 1 / 2" by linarith
  then have "quantum x * \<bar>of_int (round_half_even t) - t\<bar> \<le> quantum x * (1 / 2)"
    by (rule mult_left_mono) simp
  moreover have "round_double x - x = quantum x * (of_int (round_half_even t) - t)"
    unfolding round_double_pos [OF assms] t_def [symmetric]
    using x by (simp add: right_diff_distrib)
  ultimately show ?thesis by (simp add: abs_mult)
qed

section \<open>Doubles below one and the product with three\<close>

text \<open>The largest double below 1 is \<open>1 - 2 ^ - 53\<close>, so three times a double below 1 rounds below 3.\<close>

lemma double_below_one:
  assumes "is_double r" and "0 \<le> r" and "r < 1"
  shows "r \<le> 1 - 1 / 2 ^ 53"
proof (cases "r < 1 / 2")
  case True
  then show ?thesis by simp
next
  case False
  then have half: "1 / 2 \<le> r" by simp
  then have pos: "0 < r" by simp
  have "exponent r = - 1"
    using pos half assms(3) by (intro exponent_unique) simp_all
  then have q: "quantum r = 1 / 2 ^ 53"
    by (simp add: quantum_def eff_exponent_def power_int_minus_divide)
  define n where "n = round_half_even (r / quantum r)"
  from assms(1) have r: "r = of_int n / 2 ^ 53"
    by (simp add: is_double_def round_double_pos [OF pos] n_def q)
  with assms(3) have "(of_int n :: rat) < of_int (2 ^ 53)" by simp
  then have "n < 2 ^ 53" by (simp only: of_int_less_iff)
  then have "n \<le> 2 ^ 53 - 1" by simp
  then have "(of_int n :: rat) \<le> of_int (2 ^ 53 - 1)" by (simp only: of_int_le_iff)
  then show ?thesis by (simp add: r field_simps)
qed

lemma fixed_points:
  "round_double 1 = 1" "round_double 2 = 2" "round_double 100 = 100"
  "round_double (1 - 1 / 2 ^ 53) = 1 - 1 / 2 ^ 53"
  "round_double (2 - 1 / 2 ^ 52) = 2 - 1 / 2 ^ 52"
  "round_double (3 - 3 / 2 ^ 53) = 3 - 1 / 2 ^ 51"
  by code_simp+

lemma random_times_three:
  assumes "is_double r" and "0 \<le> r" and "r < 1"
  shows "0 \<le> double_mul r 3 \<and> double_mul r 3 < 3"
proof -
  from assms(2) have "0 \<le> r * 3" by simp
  then have lo: "0 \<le> double_mul r 3" unfolding double_mul_def by (rule round_double_nonneg)
  from double_below_one [OF assms] have "r * 3 \<le> 3 - 3 / 2 ^ 53" by simp
  with \<open>0 \<le> r * 3\<close> have "round_double (r * 3) \<le> round_double (3 - 3 / 2 ^ 53)"
    by (rule round_double_mono)
  then have "double_mul r 3 \<le> 3 - 1 / 2 ^ 51" by (simp only: fixed_points double_mul_def)
  then have "double_mul r 3 < 3" by simp
  with lo show ?thesis by simp
qed

section \<open>The mock fallback of \<open>analyzeWaste\<close>\<close>

lemma mockResults_complete: "\<forall>m \<in> set mockResults. complete_result m"
  by (simp add: mockResults_def complete_result_def)

lemma mock_index_eq: "mock_index r = \<lfloor>double_mul r 3\<rfloor>"
  by (simp add: mock_index_def mockResults_def)

lemma mock_index_range:
  assumes "is_double r" and "0 \<le> r" and "r < 1"
  shows "0 \<le> mock_index r \<and> mock_index r < 3"
  using random_times_three [OF assms] unfolding mock_index_eq
  by (simp add: floor_less_iff)

text \<open>
  A product at or above an integer threshold does not round below it, and a product at or
  below the double just before the threshold does not round up to it.
\<close>

lemma product_reaches:
  assumes "0 \<le> r" and "of_int k \<le> r * 3" and "round_double (of_int k) = of_int k" and "0 \<le> k"
  shows "k \<le> mock_index r"
proof -
  from assms(4) have "(0::rat) \<le> of_int k" by simp
  from round_double_mono [OF this assms(2)] assms(3)
  have "of_int k \<le> double_mul r 3" by (simp add: double_mul_def)
  then show ?thesis unfolding mock_index_eq by (simp add: le_floor_iff)
qed

lemma mock_index_thirds:
  assumes "is_double r" and "0 \<le> r" and "r < 1"
  shows "of_int (mock_index r) / 3 - 1 / 2 ^ 52 < r \<and> r < (of_int (mock_index r) + 1) / 3"
proof -
  from mock_index_range [OF assms] have "mock_index r = 0 \<or> mock_index r = 1 \<or> mock_index r = 2"
    by auto
  moreover have nn: "0 \<le> r * 3" using assms(2) by simp
  have up1: "r * 3 < 1" if "mock_index r < 1"
  proof (rule ccontr)
    assume "\<not> r * 3 < 1"
    then have "of_int 1 \<le> r * 3" by simp
    from product_reaches [OF assms(2) this] have "1 \<le> mock_index r"
      by (simp add: fixed_points)
    with that show False by simp
  qed
  have up2: "r * 3 < 2" if "mock_index r < 2"
  proof (rule ccontr)
    assume "\<not> r * 3 < 2"
    then have "of_int 2 \<le> r * 3" by simp
    from product_reaches [OF assms(2) this] have "2 \<le> mock_index r"
      by (simp add: fixed_points)
    with that show False by simp
  qed
  have lo1: "1 - 1 / 2 ^ 53 < r * 3" if "1 \<le> mock_index r"
  proof (rule ccontr)
    assume "\<not> 1 - 1 / 2 ^ 53 < r * 3"
    then have "r * 3 \<le> 1 - 1 / 2 ^ 53" by simp
    from round_double_mono [OF nn this] have "double_mul r 3 \<le> 1 - 1 / 2 ^ 53"
      by (simp only: fixed_points double_mul_def)
    then have "double_mul r 3 < 1" by simp
    then have "mock_index r < 1" unfolding mock_index_eq by (simp add: floor_less_iff)
    with that show False by simp
  qed
  have lo2: "2 - 1 / 2 ^ 52 < r * 3" if "2 \<le> mock_index r"
  proof (rule ccontr)
    assume "\<not> 2 - 1 / 2 ^ 52 < r * 3"
    then have "r * 3 \<le> 2 - 1 / 2 ^ 52" by simp
    from round_double_mono [OF nn this] have "double_mul r 3 \<le> 2 - 1 / 2 ^ 52"
      by (simp only: fixed_points double_mul_def)
    then have "double_mul r 3 < 2" by simp
    then have "mock_index r < 2" unfolding mock_index_eq by (simp add: floor_less_iff)
    with that show False by simp
  qed
  ultimately show ?thesis
  proof (elim disjE)
    assume i: "mock_index r = 0"
    with up1 assms(2) show ?thesis by simp
  next
    assume i: "mock_index r = 1"
    with up2 lo1 have "r * 3 < 2" and "1 - 1 / 2 ^ 53 < r * 3" by simp_all
    with i show ?thesis by simp
  next
    assume i: "mock_index r = 2"
    with lo2 have "2 - 1 / 2 ^ 52 < r * 3" by simp
    with i assms(3) show ?thesis by simp
  qed
qed

lemma randomResult_mock:
  assumes "is_double r" and "0 \<le> r" and "r < 1"
  shows "\<exists>i<3. randomResult r = Some (mockResults ! i) \<and>
           of_nat i / 3 - 1 / 2 ^ 52 < r \<and> r < (of_nat i + 1) / 3"
proof -
  have len: "length mockResults = 3" by (simp add: mockResults_def)
  from mock_index_range [OF assms] have rng: "0 \<le> mock_index r" "mock_index r < 3" by simp_all
  define i where "i = nat (mock_index r)"
  from rng have i: "i < 3" and mi: "mock_index r = int i" by (simp_all add: i_def)
  have rr: "randomResult r = Some (mockResults ! i)"
    using rng by (simp add: randomResult_def Let_def len i_def)
  from mock_index_thirds [OF assms]
  have "of_nat i / 3 - 1 / 2 ^ 52 < r" and "r < (of_nat i + 1) / 3"
    by (simp_all add: mi)
  with i rr show ?thesis by blast
qed

lemma analyzeWaste_failed_call:
  assumes "apiResponse e (base64_of img) = None \<or>
           (\<exists>r. apiResponse e (base64_of img) = Some r \<and> \<not> ok r)"
  shows "analyzeWaste e img s =
           s\<lparr>classification := randomResult (random e), isAnalyzing := False,
             apiCalls := apiCalls s + (if dataUrlFetch e then 1 else 0)\<rparr>"
  using assms
  by (auto simp: analyzeWaste_def analyze_try_def mock_fallback_def Let_def)

text \<open>
  C2. When the call to the classification endpoint is rejected or resolves to a
  non-success status, \<open>analyzeWaste\<close> makes no further call (the endpoint is called once,
  or not at all when reading the image failed before), shows no alert, ends with
  \<open>isAnalyzing\<close> false, and sets the classification to one of the three fixed mock results,
  each a complete result. Result \<open>i\<close> is chosen only when \<^verbatim>\<open>Math.random()\<close> lies in the
  \<open>i\<close>-th third of \<open>[0, 1)\<close>, widened downwards by the rounding of the product (less than
  \<open>2 ^ - 52\<close>): the three are equally likely up to that rounding.
\<close>

theorem C2_failed_call_mock_result:
  assumes "apiResponse e (base64_of img) = None \<or>
           (\<exists>r. apiResponse e (base64_of img) = Some r \<and> \<not> ok r)"
    and "is_double (random e)" and "0 \<le> random e" and "random e < 1"
  shows "length mockResults = 3 \<and>
         (\<exists>i<3. classification (analyzeWaste e img s) = Some (mockResults ! i) \<and>
                 complete_result (mockResults ! i) \<and>
                 of_nat i / 3 - 1 / 2 ^ 52 < random e \<and> random e < (of_nat i + 1) / 3) \<and>
         \<not> isAnalyzing (analyzeWaste e img s) \<and>
         apiCalls (analyzeWaste e img s) = apiCalls s + (if dataUrlFetch e then 1 else 0) \<and>
         alerts (analyzeWaste e img s) = alerts s"
proof -
  have len: "length mockResults = 3" by (simp add: mockResults_def)
  from randomResult_mock [OF assms(2,3,4)] obtain i where i: "i < 3"
    and rr: "randomResult (random e) = Some (mockResults ! i)"
    and lo: "of_nat i / 3 - 1 / 2 ^ 52 < random e" and hi: "random e < (of_nat i + 1) / 3"
    by blast
  from i len have "mockResults ! i \<in> set mockResults" by simp
  with mockResults_complete have "complete_result (mockResults ! i)" by blast
  with i rr lo hi len show ?thesis
    unfolding analyzeWaste_failed_call [OF assms(1)] by auto
qed

theorem C2_failed_call_mock_result_witness:
  "is_double (6004799503160661 / 2 ^ 53) \<and>
   classification
     (analyzeWaste
        \<lparr>dataUrlFetch = True, apiResponse = (\<lambda>b. None), random = 6004799503160661 / 2 ^ 53,
         toDataURL = (\<lambda>w h. ''data:image/jpeg;base64,AAAA'')\<rparr>
        ''data:image/jpeg;base64,AAAA'' initial_state)
     = Some \<lparr>rtype = Some non_biodegradable, confidence = 95, item = ''Styrofoam container'',
             tips = Some ''This goes to general waste. Consider using reusable containers in the future!''\<rparr> \<and>
   apiCalls
     (analyzeWaste
        \<lparr>dataUrlFetch = True, apiResponse = (\<lambda>b. None), random = 6004799503160661 / 2 ^ 53,
         toDataURL = (\<lambda>w h. ''data:image/jpeg;base64,AAAA'')\<rparr>
        ''data:image/jpeg;base64,AAAA'' initial_state) = 1"
proof -
  define e where "e = \<lparr>dataUrlFetch = True, apiResponse = (\<lambda>b. None),
         random = 6004799503160661 / 2 ^ 53,
         toDataURL = (\<lambda>w h. ''data:image/jpeg;base64,AAAA'')\<rparr>"
  define img where "img = ''data:image/jpeg;base64,AAAA''"
  have d: "is_double (6004799503160661 / 2 ^ 53)" by code_simp
  have h1: "apiResponse e (base64_of img) = None \<or>
           (\<exists>r. apiResponse e (base64_of img) = Some r \<and> \<not> ok r)"
    by (simp add: e_def)
  have h2: "is_double (random e)" using d by (simp add: e_def)
  have h3: "0 \<le> random e" and h4: "random e < 1" by (simp_all add: e_def)
  from C2_failed_call_mock_result [OF h1 h2 h3 h4, of initial_state]
  obtain i where i: "i < 3"
    and c: "classification (analyzeWaste e img initial_state) = Some (mockResults ! i)"
    and lo: "of_nat i / 3 - 1 / 2 ^ 52 < random e" and hi: "random e < (of_nat i + 1) / 3"
    and calls: "apiCalls (analyzeWaste e img initial_state) =
                  apiCalls initial_state + (if dataUrlFetch e then 1 else 0)"
    by blast
  have c2: "classification (analyzeWaste e img initial_state) = Some (mockResults ! 2)"
    unfolding e_def img_def by code_simp
  from calls have "apiCalls (analyzeWaste e img initial_state) = 1"
    by (simp add: e_def initial_state_def)
  with c2 d show ?thesis
    unfolding e_def img_def by (simp add: mockResults_def)
qed

section \<open>Confidence and display label\<close>

lemma Math_round_nearest:
  "of_int (Math_round x) - 1 / 2 \<le> x \<and> x < of_int (Math_round x) + 1 / 2"
  unfolding Math_round_def by linarith

lemma quantum_small:
  assumes "0 < x" and "x < 128"
  shows "quantum x \<le> 1 / 2 ^ 46"
proof -
  from exponent_bounds [OF assms(1)] assms(2) have "(2::rat) powi exponent x < 2 powi 7" by simp
  then have "exponent x < 7" by (rule power_int_2_less_imp)
  then have "eff_exponent x - 52 \<le> - 46" by (simp add: eff_exponent_def)
  then have "(2::rat) powi (eff_exponent x - 52) \<le> 2 powi (- 46)"
    by (intro power_int_increasing) simp_all
  then show ?thesis by (simp add: quantum_def power_int_minus_divide)
qed

lemma percent_error:
  assumes "0 \<le> q" and "q \<le> 1"
  shows "\<bar>double_mul q 100 - q * 100\<bar> \<le> 1 / 2 ^ 47"
proof (cases "q = 0")
  case True
  then show ?thesis by (simp add: double_mul_def round_double_def)
next
  case False
  with assms have pos: "0 < q * 100" and lt: "q * 100 < 128" by simp_all
  from round_double_error [OF pos] quantum_small [OF pos lt]
  show ?thesis unfolding double_mul_def by simp
qed

lemma percent_range:
  assumes "0 \<le> q" and "q \<le> 1"
  shows "0 \<le> double_mul q 100 \<and> double_mul q 100 \<le> 100"
proof -
  from assms have nn: "0 \<le> q * 100" and le: "q * 100 \<le> 100" by simp_all
  from round_double_nonneg [OF nn] round_double_mono [OF nn le]
  show ?thesis by (simp add: double_mul_def fixed_points)
qed

lemma confidence_near_product:
  assumes "0 \<le> q" and "q \<le> 1"
  shows "\<bar>of_int (Math_round (double_mul q 100)) - q * 100\<bar> \<le> 1 / 2 + 1 / 2 ^ 47"
proof -
  define eps :: rat where "eps = 1 / 2 ^ 47"
  from percent_error [OF assms] have a: "\<bar>double_mul q 100 - q * 100\<bar> \<le> eps"
    by (simp only: eps_def)
  from Math_round_nearest [of "double_mul q 100"]
  have b: "\<bar>of_int (Math_round (double_mul q 100)) - double_mul q 100\<bar> \<le> 1 / 2"
    by linarith
  from a b have "\<bar>of_int (Math_round (double_mul q 100)) - q * 100\<bar> \<le> 1 / 2 + eps"
    by linarith
  then show ?thesis by (simp only: eps_def)
qed

lemma Math_round_percent:
  assumes "0 \<le> q" and "q \<le> 1"
  shows "0 \<le> Math_round (double_mul q 100) \<and> Math_round (double_mul q 100) \<le> 100"
proof -
  from percent_range [OF assms]
  have "0 \<le> double_mul q 100 + 1 / 2" and "double_mul q 100 + 1 / 2 < 101" by simp_all
  then show ?thesis unfolding Math_round_def by (simp add: floor_less_iff le_floor_iff)
qed

text \<open>
  On a label of ASCII letters, digits, underscores and spaces the regular-expression scan
  capitalises exactly the first character of each space-separated word.
\<close>

lemma split_on_nonempty: "split_on d s \<noteq> []"
  by (induction s) (auto split: list.splits)

lemma join_with_Cons: "ws \<noteq> [] \<Longrightarrow> join_with d (w # ws) = w @ d # join_with d ws"
  by (cases ws) simp_all

lemma join_with_extend: "join_with d ((c # w) # ws) = c # join_with d (w # ws)"
  by (cases ws) simp_all

lemma capitalize_scan_words:
  assumes "\<forall>c \<in> set s. is_word_char c \<or> c = CHR '' ''"
  shows "capitalize_scan False s = join_with CHR '' '' (map capitalize_word (split_on CHR '' '' s)) \<and>
         capitalize_scan True s =
           join_with CHR '' '' (case split_on CHR '' '' s of
                                  [] \<Rightarrow> [] | w # ws \<Rightarrow> w # map capitalize_word ws)"
  using assms
proof (induction s)
  case Nil
  show ?case by simp
next
  case (Cons c cs)
  then have IH: "capitalize_scan False cs =
        join_with CHR '' '' (map capitalize_word (split_on CHR '' '' cs))"
      "capitalize_scan True cs =
        join_with CHR '' '' (case split_on CHR '' '' cs of
                               [] \<Rightarrow> [] | w # ws \<Rightarrow> w # map capitalize_word ws)"
    by simp_all
  have sp: "\<not> is_word_char CHR '' ''" by (simp add: is_word_char_def)
  obtain w ws where split: "split_on CHR '' '' cs = w # ws"
    using split_on_nonempty [of "CHR '' ''" cs] by (cases "split_on CHR '' '' cs") auto
  show ?case
  proof (cases "c = CHR '' ''")
    case True
    then show ?thesis
      using IH sp split by (simp add: join_with_Cons)
  next
    case False
    with Cons.prems have wc: "is_word_char c" by simp
    from False wc IH split show ?thesis
      by (simp add: join_with_extend)
  qed
qed

lemma replace_underscores_plain:
  "plain_label l \<Longrightarrow> \<forall>c \<in> set (replace_underscores l). is_word_char c \<or> c = CHR '' ''"
  by (auto simp: plain_label_def replace_underscores_def)

lemma item_label_plain:
  assumes "plain_label l"
  shows "capitalize_words (replace_underscores l) = item_label_spec l"
  using capitalize_scan_words [OF replace_underscores_plain [OF assms]]
  by (simp add: capitalize_words_def item_label_spec_def title_case_def replace_underscores_def)

text \<open>
  C5, with the general part as the code has it. The single prediction \<open>plastic_bottle\<close>
  with probability 0.85 gives recyclable, confidence 85, "Plastic Bottle" and the bottle
  tip. In general, for the winning prediction \<open>p\<close>, the confidence is \<^verbatim>\<open>Math.round\<close> of the
  double product of the probability and 100, which for a probability between 0 and 1 is
  within \<open>1 / 2 + 2 ^ - 47\<close> of the exact product; and for a label of ASCII letters,
  digits, underscores and spaces the item label is the raw label with underscores
  replaced by spaces and the first letter of each word capitalised.
\<close>

theorem C5_confidence_and_item_label:
  "processXimilarResult
     \<lparr>records = Some [\<lparr>outputs = Some [\<lparr>label = ''plastic_bottle'', prob = number (85 / 100)\<rparr>]\<rparr>]\<rparr> =
     \<lparr>rtype = Some recyclable, confidence = 85, item = ''Plastic Bottle'',
      tips = Some ''Clean and place in recycling bin. Check local recycling guidelines for proper disposal.''\<rparr> \<and>
   (topPrediction (predictions_of x) = Some p \<longrightarrow>
      confidence (processXimilarResult x) = Math_round (double_mul (prob p) 100) \<and>
      (0 \<le> prob p \<and> prob p \<le> 1 \<longrightarrow>
         \<bar>of_int (confidence (processXimilarResult x)) - prob p * 100\<bar> \<le> 1 / 2 + 1 / 2 ^ 47) \<and>
      (plain_label (label p) \<longrightarrow> item (processXimilarResult x) = item_label_spec (label p)))"
proof (intro conjI impI)
  show "processXimilarResult
     \<lparr>records = Some [\<lparr>outputs = Some [\<lparr>label = ''plastic_bottle'', prob = number (85 / 100)\<rparr>]\<rparr>]\<rparr> =
     \<lparr>rtype = Some recyclable, confidence = 85, item = ''Plastic Bottle'',
      tips = Some ''Clean and place in recycling bin. Check local recycling guidelines for proper disposal.''\<rparr>"
    by code_simp
next
  assume top: "topPrediction (predictions_of x) = Some p"
  then have r: "processXimilarResult x = result_of p"
    by (simp add: processXimilarResult_def)
  show c: "confidence (processXimilarResult x) = Math_round (double_mul (prob p) 100)"
    unfolding r by (simp add: result_of_def Let_def)
  show "\<bar>of_int (confidence (processXimilarResult x)) - prob p * 100\<bar> \<le> 1 / 2 + 1 / 2 ^ 47"
    if "0 \<le> prob p \<and> prob p \<le> 1"
    unfolding c using that confidence_near_product [of "prob p"] by simp
  show "item (processXimilarResult x) = item_label_spec (label p)" if "plain_label (label p)"
    unfolding r using item_label_plain [OF that] by (simp add: result_of_def Let_def)
qed

theorem C5_confidence_and_item_label_witness:
  "topPrediction (predictions_of
      \<lparr>records = Some [\<lparr>outputs = Some [\<lparr>label = ''glass_bottle'', prob = number (575 / 1000)\<rparr>]\<rparr>]\<rparr>)
     = Some \<lparr>label = ''glass_bottle'', prob = number (575 / 1000)\<rparr> \<and>
   plain_label ''glass_bottle'' \<and>
   confidence (processXimilarResult
      \<lparr>records = Some [\<lparr>outputs = Some [\<lparr>label = ''glass_bottle'', prob = number (575 / 1000)\<rparr>]\<rparr>]\<rparr>) = 57 \<and>
   item (processXimilarResult
      \<lparr>records = Some [\<lparr>outputs = Some [\<lparr>label = ''glass_bottle'', prob = number (575 / 1000)\<rparr>]\<rparr>]\<rparr>)
     = ''Glass Bottle''"
proof -
  define p where "p = \<lparr>label = ''glass_bottle'', prob = number (575 / 1000)\<rparr>"
  define x where "x = \<lparr>records = Some [\<lparr>outputs = Some [p]\<rparr>]\<rparr>"
  have pv: "prob p = 2589569785738035 / 2 ^ 52" unfolding p_def by code_simp
  have h: "topPrediction (predictions_of x) = Some p"
    by (simp add: x_def predictions_of_def topPrediction_def reducer_def prob_or_zero_def pv)
  have pl: "plain_label (label p)" unfolding p_def by code_simp
  from C5_confidence_and_item_label [of x p] h pl
  have c: "confidence (processXimilarResult x) = Math_round (double_mul (prob p) 100)"
    and it: "item (processXimilarResult x) = item_label_spec (label p)"
    by simp_all
  have "Math_round (double_mul (prob p) 100) = 57" unfolding p_def by code_simp
  with c have c': "confidence (processXimilarResult x) = 57" by simp
  have "item_label_spec (label p) = ''Glass Bottle''" unfolding p_def by code_simp
  with it have it': "item (processXimilarResult x) = ''Glass Bottle''" by simp
  from h pl c' it' show ?thesis unfolding x_def p_def by simp
qed

text \<open>
  C5 as stated fails in both general parts. The number 0.015 times 100 is rounded to the
  double 1.5, so the confidence is 2, while the integer nearest to the exact product is 1;
  the number 0.575 times 100 is rounded to 57.49999999999999, so the confidence is 57,
  while the decimal product 57.5 rounds to 58. The label \<open>e-waste\<close> becomes "E-Waste":
  the scan starts a word after every character that is not a letter, digit or underscore,
  not only after a space.
\<close>

theorem C5_counterexample_rounding_and_words:
  "confidence (processXimilarResult
      \<lparr>records = Some [\<lparr>outputs = Some [\<lparr>label = ''e-waste'', prob = number (15 / 1000)\<rparr>]\<rparr>]\<rparr>) = 2 \<and>
   Math_round (number (15 / 1000) * 100) = 1 \<and>
   confidence (processXimilarResult
      \<lparr>records = Some [\<lparr>outputs = Some [\<lparr>label = ''e-waste'', prob = number (575 / 1000)\<rparr>]\<rparr>]\<rparr>) = 57 \<and>
   Math_round (575 / 1000 * 100) = 58 \<and>
   item (processXimilarResult
      \<lparr>records = Some [\<lparr>outputs = Some [\<lparr>label = ''e-waste'', prob = number (15 / 1000)\<rparr>]\<rparr>]\<rparr>)
     = ''E-Waste'' \<and>
   item_label_spec ''e-waste'' = ''E-waste''"
  by code_simp

section \<open>Label lookup\<close>

text \<open>Labels of the table, and labels that are neither in the table nor inherited names.\<close>

lemma general_waste_entry:
  "wasteMapping ''general_waste'' =
     Entry non_biodegradable ''This item should go in your general waste bin.''"
  by code_simp

lemma result_of_mapped:
  assumes "map_of wasteMapping_entries (toLowerCase (label p)) = Some (t, tip)"
  shows "rtype (result_of p) = Some t \<and> tips (result_of p) = Some tip"
  using assms by (simp add: result_of_def Let_def lookup_mapping_def wasteMapping_def)

lemma result_of_unmapped:
  assumes "map_of wasteMapping_entries (toLowerCase (label p)) = None"
    and "toLowerCase (label p) \<notin> set object_prototype_keys"
  shows "rtype (result_of p) = Some non_biodegradable \<and>
         tips (result_of p) = Some ''This item should go in your general waste bin.''"
proof -
  from assms have "wasteMapping (toLowerCase (label p)) = Undefined"
    by (simp add: wasteMapping_def)
  then have "lookup_mapping (toLowerCase (label p)) =
      Entry non_biodegradable ''This item should go in your general waste bin.''"
    by (simp add: lookup_mapping_def general_waste_entry)
  then show ?thesis by (simp add: result_of_def Let_def)
qed

text \<open>
  C6 fails on the code for a label that names a member inherited from
  \<^verbatim>\<open>Object.prototype\<close>: the label \<open>constructor\<close> is not in the table, yet the property
  read \<^verbatim>\<open>wasteMapping["constructor"]\<close> is truthy, the \<^verbatim>\<open>||\<close> fallback to
  \<open>general_waste\<close> is not taken, and the result has neither a category nor a tip
  (nothing is thrown). The claim says that such a label uses the \<open>general_waste\<close> entry.
\<close>

theorem C6_inherited_property_label:
  "toLowerCase ''constructor'' = ''constructor'' \<and>
   map_of wasteMapping_entries ''constructor'' = None \<and>
   processXimilarResult
     \<lparr>records = Some [\<lparr>outputs = Some [\<lparr>label = ''constructor'', prob = 9 / 10\<rparr>]\<rparr>]\<rparr> =
     \<lparr>rtype = None, confidence = 90, item = ''Constructor'', tips = None\<rparr>"
  by code_simp

section \<open>The results of the whole pipeline\<close>

lemma result_of_complete:
  assumes "0 \<le> prob p" and "prob p \<le> 1"
    and "toLowerCase (label p) \<notin> set object_prototype_keys"
  shows "complete_result (result_of p)"
proof -
  have "rtype (result_of p) \<noteq> None \<and> tips (result_of p) \<noteq> None"
  proof (cases "map_of wasteMapping_entries (toLowerCase (label p))")
    case None
    from result_of_unmapped [OF None assms(3)] show ?thesis by simp
  next
    case (Some a)
    then obtain t tip where "map_of wasteMapping_entries (toLowerCase (label p)) = Some (t, tip)"
      by (cases a) simp
    from result_of_mapped [OF this] show ?thesis by simp
  qed
  moreover have "confidence (result_of p) = Math_round (double_mul (prob p) 100)"
    by (simp add: result_of_def Let_def)
  ultimately show ?thesis
    using Math_round_percent [OF assms(1,2)] by (simp add: complete_result_def)
qed

lemma topPrediction_member: "topPrediction ps = Some p \<Longrightarrow> p \<in> set ps"
  using topPrediction_cases [of ps] by (auto simp: first_max_at_def)

lemma processXimilarResult_complete:
  assumes "\<forall>p \<in> set (predictions_of x). 0 \<le> prob p \<and> prob p \<le> 1 \<and>
             toLowerCase (label p) \<notin> set object_prototype_keys"
  shows "complete_result (processXimilarResult x)"
proof (cases "topPrediction (predictions_of x)")
  case None
  then show ?thesis
    by (simp add: processXimilarResult_def unknown_item_def complete_result_def)
next
  case (Some p)
  from topPrediction_member [OF Some] assms have "complete_result (result_of p)"
    by (intro result_of_complete) auto
  with Some show ?thesis by (simp add: processXimilarResult_def)
qed

lemma randomResult_complete:
  assumes "is_double r" and "0 \<le> r" and "r < 1"
  shows "\<exists>m. randomResult r = Some m \<and> complete_result m"
proof -
  have len: "length mockResults = 3" by (simp add: mockResults_def)
  from randomResult_mock [OF assms] obtain i where "i < 3"
    and "randomResult r = Some (mockResults ! i)" by blast
  moreover from this len have "mockResults ! i \<in> set mockResults" by simp
  ultimately show ?thesis using mockResults_complete by blast
qed

text \<open>
  Away from the inherited property names the pipeline always ends with a complete result:
  the mock fallback, the fixed "Unknown item" result, or the result of the best prediction.
\<close>

lemma analyzeWaste_complete:
  assumes "is_double (random e)" and "0 \<le> random e" and "random e < 1"
    and valid: "\<And>r x. apiResponse e (base64_of img) = Some r \<Longrightarrow> json r = Some x \<Longrightarrow>
           \<forall>p \<in> set (predictions_of x). 0 \<le> prob p \<and> prob p \<le> 1 \<and>
             toLowerCase (label p) \<notin> set object_prototype_keys"
  shows "\<exists>m. classification (analyzeWaste e img s) = Some m \<and> complete_result m"
proof -
  from randomResult_complete [OF assms(1,2,3)] obtain m where
    m: "randomResult (random e) = Some m" "complete_result m" by blast
  show ?thesis
  proof (cases "apiResponse e (base64_of img)")
    case None
    with m show ?thesis
      by (simp add: analyzeWaste_def analyze_try_def mock_fallback_def Let_def)
  next
    case (Some r)
    show ?thesis
    proof (cases "json r")
      case None
      with Some m show ?thesis
        by (simp add: analyzeWaste_def analyze_try_def mock_fallback_def Let_def)
    next
      case (Some x)
      from valid [OF \<open>apiResponse e (base64_of img) = Some r\<close> Some]
      have "complete_result (processXimilarResult x)"
        by (rule processXimilarResult_complete)
      with Some \<open>apiResponse e (base64_of img) = Some r\<close> m show ?thesis
        by (simp add: analyzeWaste_def analyze_try_def mock_fallback_def Let_def)
    qed
  qed
qed

text \<open>
  C3 fails on the code: the provider answers, through the proxy, with the single
  prediction \<open>constructor\<close> of probability 0.9, and the pipeline sets a classification
  whose category is \<open>undefined\<close>, outside the closed enumeration. The claim says the
  category is always one of the three values.
\<close>

theorem C3_category_outside_enumeration:
  "classification
     (analyzeWaste
        \<lparr>dataUrlFetch = True,
         apiResponse = via_proxy (\<lambda>b. Some \<lparr>ok = True, json = Some
           \<lparr>records = Some [\<lparr>outputs = Some [\<lparr>label = ''constructor'', prob = 9 / 10\<rparr>]\<rparr>]\<rparr>\<rparr>),
         random = 0, toDataURL = (\<lambda>w h. ''data:image/jpeg;base64,AAAA'')\<rparr>
        ''data:image/jpeg;base64,AAAA'' initial_state)
     = Some \<lparr>rtype = None, confidence = 90, item = ''Constructor'', tips = None\<rparr> \<and>
   \<not> complete_result \<lparr>rtype = None, confidence = 90, item = ''Constructor'', tips = None\<rparr>"
  by code_simp

text \<open>The same result at the double that the JSON number 0.9 denotes.\<close>

lemma constructor_label_at_double:
  "is_double (number (9 / 10)) \<and>
   processXimilarResult
     \<lparr>records = Some [\<lparr>outputs = Some [\<lparr>label = ''constructor'', prob = number (9 / 10)\<rparr>]\<rparr>]\<rparr> =
     \<lparr>rtype = None, confidence = 90, item = ''Constructor'', tips = None\<rparr>"
  by code_simp

section \<open>The proxy on provider failure\<close>




text \<open>A request the handler cannot read is answered the same way.\<close>

lemma POST_exception:
  "POST provider Unparseable = synthetic ''general_waste'' (number (75 / 100))"
  by (simp add: POST_def)

section \<open>Capturing a frame\<close>

text \<open>
  C8. When the video has no frame of non-zero width and height (or no video element is
  mounted), \<open>captureImage\<close> produces no image and no classification, calls nothing, and
  raises an alert; with the video and canvas elements mounted the alert is the
  frame-not-ready message and nothing else in the state changes.
\<close>

theorem C8_frame_not_ready:
  assumes "case videoRef s of None \<Rightarrow> True | Some v \<Rightarrow> videoWidth v = 0 \<or> videoHeight v = 0"
  shows "capturedImage (captureImage e s) = capturedImage s \<and>
         classification (captureImage e s) = classification s \<and>
         apiCalls (captureImage e s) = apiCalls s \<and>
         (\<exists>msg. alerts (captureImage e s) = alerts s @ [msg]) \<and>
         (videoRef s \<noteq> None \<and> canvasRef s \<noteq> None \<longrightarrow>
            captureImage e s =
              s\<lparr>alerts := alerts s @ [''Video is not ready yet. Please wait and try again.'']\<rparr>)"
  using assms
  by (auto simp: captureImage_def alert_def split: option.splits)

theorem C8_frame_not_ready_witness:
  "captureImage
     \<lparr>dataUrlFetch = True, apiResponse = (\<lambda>b. None), random = 0, toDataURL = (\<lambda>w h. ''data:,'')\<rparr>
     (initial_state\<lparr>isCapturing := True, streamRef := Some 1,
        videoRef := Some \<lparr>videoWidth = 0, videoHeight = 0, srcObject = Some 1\<rparr>\<rparr>)
   = (initial_state\<lparr>isCapturing := True, streamRef := Some 1,
        videoRef := Some \<lparr>videoWidth = 0, videoHeight = 0, srcObject = Some 1\<rparr>\<rparr>)
       \<lparr>alerts := [''Video is not ready yet. Please wait and try again.'']\<rparr>"
proof -
  define s where "s = initial_state\<lparr>isCapturing := True, streamRef := Some 1,
        videoRef := Some \<lparr>videoWidth = 0, videoHeight = 0, srcObject = Some 1\<rparr>\<rparr>"
  define e where "e = \<lparr>dataUrlFetch = True, apiResponse = (\<lambda>b. None), random = (0::rat),
        toDataURL = (\<lambda>(w::nat) (h::nat). ''data:,'')\<rparr>"
  have h: "case videoRef s of None \<Rightarrow> True | Some v \<Rightarrow> videoWidth v = 0 \<or> videoHeight v = 0"
    by (simp add: s_def)
  have m: "videoRef s \<noteq> None \<and> canvasRef s \<noteq> None"
    by (simp add: s_def initial_state_def)
  from C8_frame_not_ready [OF h, of e] m
  have "captureImage e s =
          s\<lparr>alerts := alerts s @ [''Video is not ready yet. Please wait and try again.'']\<rparr>"
    by blast
  moreover have "alerts s = []" by (simp add: s_def initial_state_def)
  ultimately show ?thesis unfolding s_def e_def by simp
qed

section \<open>Reset, cancel and the held stream\<close>

text \<open>Cancel releases the stream; reset after a capture finds it released.\<close>

lemma stopCamera_releases:
  "streamRef (stopCamera s) = None \<and>
   (\<forall>st. streamRef s = Some st \<longrightarrow> st \<in> set (stoppedStreams (stopCamera s))) \<and>
   \<not> isCapturing (stopCamera s) \<and> \<not> isInitializingCamera (stopCamera s)"
  by (auto simp: stopCamera_def Let_def split: option.splits)

lemma cancel_enters_Idle:
  "capturedImage s = None \<Longrightarrow> Idle (stopCamera s) \<and> streamRef (stopCamera s) = None"
  by (auto simp: stopCamera_def Idle_def Let_def split: option.splits)

lemma resetApp_Idle:
  "Idle (resetApp s) \<and> capturedImage (resetApp s) = None \<and>
   classification (resetApp s) = None \<and> streamRef (resetApp s) = streamRef s"
  by (simp add: resetApp_def Idle_def)

lemma analyzeWaste_keeps_stream:
  "streamRef (analyzeWaste e img s) = streamRef s \<and>
   capturedImage (analyzeWaste e img s) = capturedImage s \<and>
   \<not> isAnalyzing (analyzeWaste e img s)"
  by (simp add: analyzeWaste_def analyze_try_def mock_fallback_def Let_def
      split: option.splits)

lemma analyzeWaste_classifies:
  assumes "is_double (random e)" and "0 \<le> random e" and "random e < 1"
  shows "classification (analyzeWaste e img s) \<noteq> None"
proof -
  from randomResult_complete [OF assms] obtain m where "randomResult (random e) = Some m"
    by blast
  then show ?thesis
    by (simp add: analyzeWaste_def analyze_try_def mock_fallback_def Let_def
        split: option.splits)
qed

text \<open>
  A capture with a ready frame ends in the result screen with the stream released, and
  the reset that follows shows the start screen with no stream, image or result.
\<close>

lemma capture_then_reset:
  assumes "videoRef s = Some v" and "canvasRef s = Some c" and "context2d c"
    and "videoWidth v \<noteq> 0" and "videoHeight v \<noteq> 0"
    and "is_double (random e)" and "0 \<le> random e" and "random e < 1"
  shows "Captured_Done (captureImage e s) \<and>
         streamRef (captureImage e s) = None \<and>
         Idle (resetApp (captureImage e s)) \<and>
         streamRef (resetApp (captureImage e s)) = None \<and>
         capturedImage (resetApp (captureImage e s)) = None \<and>
         classification (resetApp (captureImage e s)) = None"
proof -
  define c1 where "c1 = c\<lparr>cwidth := videoWidth v, cheight := videoHeight v\<rparr>"
  define img where "img = toDataURL e (cwidth c1) (cheight c1)"
  define s1 where "s1 = s\<lparr>canvasRef := Some c1, capturedImage := Some img\<rparr>"
  from assms(1-5) have eq: "captureImage e s = analyzeWaste e img (stopCamera s1)"
    by (simp add: captureImage_def Let_def c1_def img_def s1_def)
  have "capturedImage (stopCamera s1) = Some img"
    by (simp add: stopCamera_def s1_def Let_def split: option.splits)
  moreover have "streamRef (stopCamera s1) = None"
    using stopCamera_releases by blast
  ultimately show ?thesis
    unfolding eq Captured_Done_def
    using analyzeWaste_keeps_stream [of e img "stopCamera s1"]
      analyzeWaste_classifies [OF assms(6,7,8), of img "stopCamera s1"]
      resetApp_Idle [of "analyzeWaste e img (stopCamera s1)"] by simp
qed

text \<open>A timeout that fires after a cancel finds no stream and changes nothing.\<close>

lemma cameraTimeout_after_cancel: "cameraTimeout (stopCamera s) = stopCamera s"
  using stopCamera_releases [of s] by (simp add: cameraTimeout_def)

text \<open>
  C9 fails on the code: from the state at mount, \<open>startCamera\<close> with a granted stream
  stores the stream in \<open>streamRef\<close>, finds no video element (it is rendered only while
  \<open>isCapturing\<close>), and clears \<open>isInitializingCamera\<close>: the start screen is entered again
  with the stream held and its tracks never stopped. The claim says that entering Idle
  guarantees the stream has been released.
\<close>

theorem C9_idle_with_stream_held:
  "Idle initial_state \<and> streamRef initial_state = None \<and>
   Idle (startCamera \<lparr>supported = True, firstRequest = Stream 1, fallbackRequest = Stream 2\<rparr>
           initial_state) \<and>
   streamRef (startCamera \<lparr>supported = True, firstRequest = Stream 1, fallbackRequest = Stream 2\<rparr>
           initial_state) = Some 1 \<and>
   stoppedStreams (startCamera \<lparr>supported = True, firstRequest = Stream 1, fallbackRequest = Stream 2\<rparr>
           initial_state) = []"
  by code_simp

end
